theory Spec2Isabelle
  imports Main "HOL-Library.Sublist" "HOL-Library.Multiset"
begin

section \<open>Values, records and data frames\<close>

text \<open>
  The notebook \<^verbatim>\<open>Preprocessing.ipynb\<close> works on pandas data frames and on CSV files.
  A cell of a frame is a Python value or is missing (\<^verbatim>\<open>NaN\<close>/\<^verbatim>\<open>None\<close>, which
  \<^verbatim>\<open>dropna\<close>, \<^verbatim>\<open>to_csv\<close> and \<^verbatim>\<open>read_csv\<close> treat alike): \<open>None\<close> is the missing cell.
  A dict is an association list in insertion order, its keys distinct. A CSV file
  without header is the
  list of its rows; the text form of a cell is not modelled, a file holds the cells
  themselves, and reading a file gives back the cells that were written.
\<close>

datatype pyval = PStr string | PInt int | PList "pyval list" | PDict "(string \<times> pyval) list"

type_synonym cell = "pyval option"
type_synonym pydict = "(string \<times> cell) list"
type_synonym csv = "cell list list"

datatype error =
    ValueError | KeyError | IndexError | ZeroDivisionError | FileNotFoundError | ParserError
  | LiteralError

record dataframe =
  columns :: "string list"
  rows :: "pydict list"

text \<open>\<^verbatim>\<open>d.get(k)\<close>: a key that is absent and a key bound to \<^verbatim>\<open>None\<close> both give the missing cell.\<close>

definition cell_of :: "pydict \<Rightarrow> string \<Rightarrow> cell" where
  "cell_of d k = (case map_of d k of None \<Rightarrow> None | Some v \<Rightarrow> v)"

text \<open>\<^verbatim>\<open>Series.unique()\<close>: the distinct values in order of first appearance.\<close>

fun unique :: "'a list \<Rightarrow> 'a list" where
  "unique [] = []"
| "unique (x # xs) = x # filter (\<lambda>y. y \<noteq> x) (unique xs)"

text \<open>
  \<^verbatim>\<open>pd.DataFrame(list_of_dicts)\<close> (also what \<^verbatim>\<open>DataFrame.from_dict(data, orient='columns')\<close>
  and a chunk of \<^verbatim>\<open>read_json(lines=True)\<close> build): the columns are the keys in order of first
  appearance, a key a record lacks is a missing cell.
\<close>

definition reindex :: "string list \<Rightarrow> pydict \<Rightarrow> pydict" where
  "reindex cs d = map (\<lambda>c. (c, cell_of d c)) cs"

definition from_dict :: "pydict list \<Rightarrow> dataframe" where
  "from_dict ds =
     (let cs = unique (concat (map (map fst) ds))
      in \<lparr>columns = cs, rows = map (reindex cs) ds\<rparr>)"

text \<open>\<^verbatim>\<open>df[c]\<close> raises \<^verbatim>\<open>KeyError\<close> for a column the frame does not have.\<close>

definition getitem :: "dataframe \<Rightarrow> string \<Rightarrow> error + cell list" where
  "getitem df c =
     (if c \<in> set (columns df) then Inr (map (\<lambda>r. cell_of r c) (rows df)) else Inl KeyError)"

text \<open>\<^verbatim>\<open>df[[c1, ..., cn]]\<close> raises \<^verbatim>\<open>KeyError\<close> when one of the labels is not a column.\<close>

definition getitems :: "dataframe \<Rightarrow> string list \<Rightarrow> error + dataframe" where
  "getitems df cs =
     (if set cs \<subseteq> set (columns df)
      then Inr \<lparr>columns = cs, rows = map (reindex cs) (rows df)\<rparr>
      else Inl KeyError)"

text \<open>\<^verbatim>\<open>df.drop(columns=cs)\<close> (default \<^verbatim>\<open>errors='raise'\<close>).\<close>

definition drop_columns :: "dataframe \<Rightarrow> string list \<Rightarrow> error + dataframe" where
  "drop_columns df cs =
     (if set cs \<subseteq> set (columns df)
      then (let keep = filter (\<lambda>c. c \<notin> set cs) (columns df)
            in Inr \<lparr>columns = keep, rows = map (reindex keep) (rows df)\<rparr>)
      else Inl KeyError)"

text \<open>\<^verbatim>\<open>df[df[c].isin(values)]\<close>, for a column \<open>c\<close> the frame has.\<close>

definition isin_rows :: "dataframe \<Rightarrow> string \<Rightarrow> cell list \<Rightarrow> dataframe" where
  "isin_rows df c vs = df\<lparr>rows := filter (\<lambda>r. cell_of r c \<in> set vs) (rows df)\<rparr>"


text \<open>\<^verbatim>\<open>to_csv(..., header=False, index=False)\<close> writes the cells of each row.\<close>

definition csv_rows :: "dataframe \<Rightarrow> csv" where
  "csv_rows df = map (map snd) (rows df)"

text \<open>Mode \<^verbatim>\<open>'a'\<close> creates the file when it is not there, also for a frame without rows.\<close>

definition append_csv :: "csv option \<Rightarrow> dataframe \<Rightarrow> csv option" where
  "append_csv f df = Some ((case f of None \<Rightarrow> [] | Some old \<Rightarrow> old) @ csv_rows df)"

text \<open>
  \<^verbatim>\<open>pd.read_csv(path, names=ns)\<close>: a missing file raises, a row with fewer fields than
  names is filled with missing cells. A row with more fields than names makes pandas
  either raise or read the leading fields as an index, depending on the other rows;
  the model reports \<open>ParserError\<close> there. The pipeline writes no such row into the
  sampled-review and metadata files.
\<close>

definition read_csv :: "csv option \<Rightarrow> string list \<Rightarrow> error + dataframe" where
  "read_csv f ns =
     (case f of
        None \<Rightarrow> Inl FileNotFoundError
      | Some rs \<Rightarrow>
          if \<forall>r \<in> set rs. length r \<le> length ns
          then Inr \<lparr>columns = ns,
                    rows = map (\<lambda>r. zip ns (r @ replicate (length ns - length r) None)) rs\<rparr>
          else Inl ParserError)"


section \<open>The random source\<close>

text \<open>
  \<^verbatim>\<open>np.random.choice(n, k, replace=False)\<close> of the legacy global generator is
  \<^verbatim>\<open>permutation(n)[:k]\<close>; \<^verbatim>\<open>permutation(n)\<close> shuffles \<^verbatim>\<open>arange(n)\<close> with
  \<^verbatim>\<open>for i in reversed(range(1, n)): j = random_interval(state, i); swap(x[i], x[j])\<close>.
  The bit generator itself is a parameter: \<open>ri g m\<close> is the draw of
  \<^verbatim>\<open>random_interval(state, m)\<close> in state \<open>g\<close> with the state after it. The library
  promises a draw in \<open>[0, m]\<close>, which is \<open>interval_ok\<close>.
\<close>

type_synonym 'g interval = "'g \<Rightarrow> nat \<Rightarrow> nat \<times> 'g"

definition interval_ok :: "'g interval \<Rightarrow> bool" where
  "interval_ok ri \<longleftrightarrow> (\<forall>g m. fst (ri g m) \<le> m)"

fun shuffle_raw :: "'g interval \<Rightarrow> nat \<Rightarrow> nat list \<Rightarrow> 'g \<Rightarrow> nat list \<times> 'g" where
  "shuffle_raw ri 0 xs g = (xs, g)"
| "shuffle_raw ri (Suc k) xs g =
     (case ri g (Suc k) of
        (j, g') \<Rightarrow> shuffle_raw ri k (xs[j := xs ! Suc k, Suc k := xs ! j]) g')"

definition permutation :: "'g interval \<Rightarrow> nat \<Rightarrow> 'g \<Rightarrow> nat list \<times> 'g" where
  "permutation ri n g = shuffle_raw ri (n - 1) [0..<n] g"

definition choice :: "'g interval \<Rightarrow> nat \<Rightarrow> nat \<Rightarrow> 'g \<Rightarrow> (error + nat list) \<times> 'g" where
  "choice ri a k g =
     (if a = 0 \<and> k \<noteq> 0 then (Inl ValueError, g)
      else if k > a then (Inl ValueError, g)
      else (case permutation ri a g of (p, g') \<Rightarrow> (Inr (take k p), g')))"

text \<open>\<^verbatim>\<open>arr[idx]\<close> with an integer index array raises \<^verbatim>\<open>IndexError\<close> out of range.\<close>

definition take_idx :: "'a list \<Rightarrow> nat list \<Rightarrow> error + 'a list" where
  "take_idx xs idx =
     (if \<forall>i \<in> set idx. i < length xs then Inr (map (\<lambda>i. xs ! i) idx) else Inl IndexError)"

section \<open>The notebook\<close>

text \<open>
  The files the notebook writes and the state of \<^verbatim>\<open>np.random\<close> are the state that
  survives a cell; \<open>None\<close> is a file that does not exist. The inputs and the settings
  do not change during a run: the two corpora (the reviews as the dicts
  \<^verbatim>\<open>read_json\<close> parses, the metadata as its lines), \<^verbatim>\<open>CHUNK_SIZE\<close>,
  \<^verbatim>\<open>USER_SAMPLES\<close>, and the library functions taken as parameters:
  \<^verbatim>\<open>ast.literal_eval\<close> (\<open>None\<close> when the line is no dict literal, so that the line
  or the \<^verbatim>\<open>pop\<close> after it raises), \<^verbatim>\<open>np.random.seed\<close> and the draw of the generator.
\<close>

record 'g world =
  rng :: 'g
  kcore_5_compact_csv :: "csv option"
  kcore_5_compact_sample_csv :: "csv option"
  metadata_sample_csv :: "csv option"

record 'g env =
  CHUNK_SIZE :: nat
  USER_SAMPLES :: nat
  kcore_5_json :: "pydict list"
  metadata_json :: "string list"
  literal_eval :: "string \<Rightarrow> pydict option"
  np_seed :: "nat \<Rightarrow> 'g"
  random_interval :: "'g interval"

subsection \<open>Seeding\<close>

definition cell_seed :: "'g env \<Rightarrow> 'g world \<Rightarrow> 'g world" where
  "cell_seed e w = w\<lparr>rng := np_seed e 47\<rparr>"

subsection \<open>Compaction of the reviews\<close>

text \<open>
  The batches of \<^verbatim>\<open>read_json(..., chunksize=n)\<close>, for \<open>n \<ge> 1\<close>. The cell computes
  \<^verbatim>\<open>math.ceil(nrows_og_file / CHUNK_SIZE)\<close> before it opens the file, so a batch size of
  \<open>0\<close> raises there.
\<close>

function chunks :: "nat \<Rightarrow> 'a list \<Rightarrow> 'a list list" where
  "chunks n xs = (if n = 0 \<or> xs = [] then [] else take n xs # chunks n (drop n xs))"
  by pat_completeness auto
termination
  by (relation "measure (\<lambda>(n, xs). length xs)") auto

declare chunks.simps [simp del]

definition dropped_review_columns :: "string list" where
  "dropped_review_columns =
     [''reviewerName'', ''helpful'', ''reviewText'', ''summary'', ''unixReviewTime'', ''reviewTime'']"

fun compact_loop :: "pydict list list \<Rightarrow> 'g world \<Rightarrow> error option \<times> 'g world" where
  "compact_loop [] w = (None, w)"
| "compact_loop (c # cs) w =
     (case drop_columns (from_dict c) dropped_review_columns of
        Inl err \<Rightarrow> (Some err, w)
      | Inr chunk \<Rightarrow>
          compact_loop cs (w\<lparr>kcore_5_compact_csv := append_csv (kcore_5_compact_csv w) chunk\<rparr>))"

definition cell_compact :: "'g env \<Rightarrow> 'g world \<Rightarrow> error option \<times> 'g world" where
  "cell_compact e w =
     (if kcore_5_compact_csv w \<noteq> None then (None, w)
      else if CHUNK_SIZE e = 0 then (Some ZeroDivisionError, w)
      else compact_loop (chunks (CHUNK_SIZE e) (kcore_5_json e)) w)"

definition review_names :: "string list" where
  "review_names = [''reviewerID'', ''asin'', ''overall'']"

definition cell_read_compact :: "'g world \<Rightarrow> error + dataframe" where
  "cell_read_compact w = read_csv (kcore_5_compact_csv w) review_names"

subsection \<open>Sampling the users and their reviews\<close>

text \<open>
  The cell returns what it binds, or nothing when the guard skips it:
  \<^verbatim>\<open>unique_users\<close>, \<^verbatim>\<open>user_sample\<close>, the cohort \<^verbatim>\<open>unique_users[user_sample]\<close> and
  the frame \<^verbatim>\<open>kcore_5_compact_sample\<close> (the field \<open>sampled_reviews\<close>).
\<close>

record sampling =
  unique_users :: "cell list"
  user_sample :: "nat list"
  cohort :: "cell list"
  sampled_reviews :: dataframe

definition cell_sample ::
  "'g env \<Rightarrow> dataframe \<Rightarrow> 'g world \<Rightarrow> (error + sampling option) \<times> 'g world" where
  "cell_sample e kcore_5_compact w =
     (if kcore_5_compact_sample_csv w \<noteq> None then (Inr None, w)
      else
        (case getitem kcore_5_compact ''reviewerID'' of
           Inl err \<Rightarrow> (Inl err, w)
         | Inr ids \<Rightarrow>
             (let uu = unique ids
              in case choice (random_interval e) (length uu) (USER_SAMPLES e) (rng w) of
                   (Inl err, g) \<Rightarrow> (Inl err, w\<lparr>rng := g\<rparr>)
                 | (Inr us, g) \<Rightarrow>
                     (case take_idx uu us of
                        Inl err \<Rightarrow> (Inl err, w\<lparr>rng := g\<rparr>)
                      | Inr co \<Rightarrow>
                          (let smp = isin_rows kcore_5_compact ''reviewerID'' co
                           in (Inr (Some \<lparr>unique_users = uu, user_sample = us, cohort = co,
                                           sampled_reviews = smp\<rparr>),
                               w\<lparr>rng := g,
                                 kcore_5_compact_sample_csv :=
                                   append_csv (kcore_5_compact_sample_csv w) smp\<rparr>))))))"


subsection \<open>The metadata of the sampled products\<close>

definition popped_keys :: "string list" where
  "popped_keys = [''imUrl'', ''price'', ''salesRank'', ''brand'']"

definition metadata_names :: "string list" where
  "metadata_names = [''asin'', ''categories'', ''title'', ''description'', ''related'']"

text \<open>\<^verbatim>\<open>[line.pop(key, None) for key in ks]\<close>: a key the dict lacks is no error.\<close>

definition pop_keys :: "string list \<Rightarrow> pydict \<Rightarrow> pydict" where
  "pop_keys ks d = filter (\<lambda>kv. fst kv \<notin> set ks) d"

text \<open>The variables of the loop: the buffer, the counter and the file it appends to.\<close>

record meta_vars =
  data :: "pydict list"
  total_sampled_rows :: nat
  out :: "csv option"

text \<open>The body of \<^verbatim>\<open>if len(data) == CHUNK_SIZE\<close>.\<close>

definition flush_chunk :: "dataframe \<Rightarrow> meta_vars \<Rightarrow> error option \<times> meta_vars" where
  "flush_chunk kcore_5_compact_sample m =
     (let chunk = from_dict (data m)
      in case getitem chunk ''asin'' of
           Inl err \<Rightarrow> (Some err, m)
         | Inr _ \<Rightarrow>
             (case getitem kcore_5_compact_sample ''asin'' of
                Inl err \<Rightarrow> (Some err, m)
              | Inr asins \<Rightarrow>
                  (let chunk1 = isin_rows chunk ''asin'' asins;
                       m1 = m\<lparr>data := []\<rparr>
                   in case getitems chunk1 metadata_names of
                        Inl err \<Rightarrow> (Some err, m1)
                      | Inr chunk2 \<Rightarrow>
                          (None, m1\<lparr>total_sampled_rows :=
                                       total_sampled_rows m1 + length (rows chunk2),
                                     out := append_csv (out m1) chunk2\<rparr>))))"

text \<open>
  The loop over the lines of the metadata file. Nothing follows the loop but the
  \<^verbatim>\<open>print\<close>: what is in \<open>data\<close> when the lines end stays there.
\<close>

fun meta_loop ::
  "(string \<Rightarrow> pydict option) \<Rightarrow> nat \<Rightarrow> dataframe \<Rightarrow> string list \<Rightarrow> meta_vars
     \<Rightarrow> error option \<times> meta_vars" where
  "meta_loop le cs smp [] m = (None, m)"
| "meta_loop le cs smp (line # ls) m =
     (case le line of
        None \<Rightarrow> (Some LiteralError, m)
      | Some d \<Rightarrow>
          (let m1 = m\<lparr>data := data m @ [pop_keys popped_keys d]\<rparr>
           in if length (data m1) = cs
              then (case flush_chunk smp m1 of
                      (Some err, m2) \<Rightarrow> (Some err, m2)
                    | (None, m2) \<Rightarrow> meta_loop le cs smp ls m2)
              else meta_loop le cs smp ls m1))"

definition cell_metadata ::
  "'g env \<Rightarrow> dataframe \<Rightarrow> 'g world \<Rightarrow> error option \<times> 'g world" where
  "cell_metadata e kcore_5_compact_sample w =
     (if metadata_sample_csv w \<noteq> None then (None, w)
      else
        (case meta_loop (literal_eval e) (CHUNK_SIZE e) kcore_5_compact_sample (metadata_json e)
                \<lparr>data = [], total_sampled_rows = 0, out = metadata_sample_csv w\<rparr> of
           (r, m) \<Rightarrow> (r, w\<lparr>metadata_sample_csv := out m\<rparr>)))"


subsection \<open>Dropping the records without category or title\<close>


subsection \<open>Running the cells in order\<close>

text \<open>A run stops at the first cell that raises; the state reached stays.\<close>

definition run_sampling :: "'g env \<Rightarrow> 'g world \<Rightarrow> (error + sampling option) \<times> 'g world" where
  "run_sampling e w =
     (case cell_compact e (cell_seed e w) of
        (Some err, w1) \<Rightarrow> (Inl err, w1)
      | (None, w1) \<Rightarrow>
          (case cell_read_compact w1 of
             Inl err \<Rightarrow> (Inl err, w1)
           | Inr kcore_5_compact \<Rightarrow> cell_sample e kcore_5_compact w1))"


section \<open>A small instance\<close>

text \<open>
  Four reviews of three users, five metadata lines, batches of two records and a
  cohort of two users. The generator of the instance is a linear congruence on
  \<open>nat\<close>; its draw in \<open>[0, m]\<close> is the state modulo \<open>m + 1\<close>.
\<close>

definition demo_interval :: "nat interval" where
  "demo_interval g m = (g mod (m + 1), 5 * g + 3)"

definition raw_review :: "string \<Rightarrow> string \<Rightarrow> int \<Rightarrow> pydict" where
  "raw_review u a r =
     [(''reviewerID'', Some (PStr u)), (''asin'', Some (PStr a)),
      (''reviewerName'', Some (PStr ''name'')), (''helpful'', Some (PList [PInt 0, PInt 0])),
      (''reviewText'', Some (PStr ''text'')), (''overall'', Some (PInt r)),
      (''summary'', Some (PStr ''sum'')), (''unixReviewTime'', Some (PInt 0)),
      (''reviewTime'', Some (PStr ''01 1, 2014''))]"

definition raw_product :: "string \<Rightarrow> cell \<Rightarrow> cell \<Rightarrow> pydict" where
  "raw_product a c t =
     [(''asin'', Some (PStr a)), (''categories'', c), (''title'', t),
      (''price'', Some (PInt 3)), (''description'', Some (PStr ''d'')),
      (''related'', Some (PDict [(''also_bought'', PList [])]))]"

definition demo_lines :: "(string \<times> pydict) list" where
  "demo_lines =
     [(''line p1'', raw_product ''p1'' (Some (PList [PList [PStr ''A'']])) (Some (PStr ''T1''))),
      (''line p2'', raw_product ''p2'' (Some (PList [PList [PStr ''A'']])) (Some (PStr ''T2''))),
      (''line p3'', raw_product ''p3'' None (Some (PStr ''T''))),
      (''line p4'', raw_product ''p4'' (Some (PList [PList [PStr ''B'']])) (Some (PStr ''T4''))),
      (''line p9'', raw_product ''p9'' (Some (PList [PList [PStr ''B'']])) (Some (PStr ''T9'')))]"

definition demo_env :: "nat env" where
  "demo_env =
     \<lparr>CHUNK_SIZE = 2, USER_SAMPLES = 2,
      kcore_5_json = [raw_review ''u1'' ''p1'' 5, raw_review ''u2'' ''p2'' 4,
                      raw_review ''u1'' ''p3'' 3, raw_review ''u3'' ''p4'' 5],
      metadata_json = [''line p1'', ''line p9'', ''line p3'', ''line p2'', ''line p4''],
      literal_eval = map_of demo_lines,
      np_seed = (\<lambda>n. n),
      random_interval = demo_interval\<rparr>"

definition fresh :: "nat world" where
  "fresh = \<lparr>rng = 0, kcore_5_compact_csv = None, kcore_5_compact_sample_csv = None,
             metadata_sample_csv = None\<rparr>"

text \<open>The compact reviews of the instance, as the notebook reads them back.\<close>

definition demo_compact_csv :: csv where
  "demo_compact_csv =
     [[Some (PStr ''u1''), Some (PStr ''p1''), Some (PInt 5)],
      [Some (PStr ''u2''), Some (PStr ''p2''), Some (PInt 4)],
      [Some (PStr ''u1''), Some (PStr ''p3''), Some (PInt 3)],
      [Some (PStr ''u3''), Some (PStr ''p4''), Some (PInt 5)]]"

definition demo_compact :: dataframe where
  "demo_compact = \<lparr>columns = review_names, rows = map (zip review_names) demo_compact_csv\<rparr>"

definition seeded :: "nat world" where
  "seeded = \<lparr>rng = 47, kcore_5_compact_csv = Some demo_compact_csv,
              kcore_5_compact_sample_csv = None, metadata_sample_csv = None\<rparr>"

text \<open>What the sampling cell binds on the instance, and a corpus of two reviews.\<close>

definition demo_sampling :: sampling where
  "demo_sampling =
     \<lparr>unique_users = [Some (PStr ''u1''), Some (PStr ''u2''), Some (PStr ''u3'')],
      user_sample = [1, 0],
      cohort = [Some (PStr ''u2''), Some (PStr ''u1'')],
      sampled_reviews = \<lparr>columns = review_names,
                          rows = map (zip review_names) (take 3 demo_compact_csv)\<rparr>\<rparr>"

definition two_users :: "cell \<Rightarrow> cell \<Rightarrow> dataframe" where
  "two_users u v =
     \<lparr>columns = review_names,
      rows = [zip review_names [u, None, None], zip review_names [v, None, None]]\<rparr>"





definition bad_env :: "nat env" where
  "bad_env = demo_env\<lparr>metadata_json := [''line p1'', ''line p9'', ''{'', ''line p2'', ''line p3'']\<rparr>"






text \<open>
  The instance with batches of three: its first three metadata lines, the two after
  them, and the variables of the loop once the first batch is written.
\<close>

definition env3 :: "nat env" where
  "env3 = demo_env\<lparr>CHUNK_SIZE := 3\<rparr>"

definition pre3 :: "string list" where
  "pre3 = [''line p1'', ''line p9'', ''line p3'']"

definition tail3 :: "string list" where
  "tail3 = [''line p2'', ''line p4'']"

definition flushed3 :: meta_vars where
  "flushed3 =
     \<lparr>data = [], total_sampled_rows = 2,
      out = Some [[Some (PStr ''p1''), Some (PList [PList [PStr ''A'']]), Some (PStr ''T1''),
                   Some (PStr ''d''), Some (PDict [(''also_bought'', PList [])])],
                  [Some (PStr ''p3''), None, Some (PStr ''T''),
                   Some (PStr ''d''), Some (PDict [(''also_bought'', PList [])])]]\<rparr>"

section \<open>The sampler\<close>

lemma set_unique [simp]: "set (unique xs) = set xs"
  by (induction xs) auto

lemma distinct_unique [simp]: "distinct (unique xs)"
  by (induction xs) auto

lemma length_unique: "length (unique xs) = card (set xs)"
  using distinct_card [OF distinct_unique, of xs] by simp

lemma shuffle_raw_mset:
  "interval_ok ri \<Longrightarrow> k < length xs \<Longrightarrow> mset (fst (shuffle_raw ri k xs g)) = mset xs"
proof (induction k arbitrary: xs g)
  case 0
  then show ?case by simp
next
  case (Suc k)
  obtain j g' where d: "ri g (Suc k) = (j, g')" by (cases "ri g (Suc k)")
  from Suc.prems(1) d have "j \<le> Suc k"
    unfolding interval_ok_def by (metis fst_conv)
  with Suc.prems(2) have jl: "j < length xs" by simp
  let ?ys = "xs[j := xs ! Suc k, Suc k := xs ! j]"
  have "mset ?ys = mset xs" using jl Suc.prems(2) by (simp add: mset_swap)
  moreover have "mset (fst (shuffle_raw ri k ?ys g')) = mset ?ys"
    using Suc.prems by (intro Suc.IH) auto
  ultimately show ?case using d by simp
qed

lemma permutation_mset:
  assumes "interval_ok ri"
  shows "mset (fst (permutation ri n g)) = mset [0..<n]"
proof (cases n)
  case 0
  then show ?thesis by (simp add: permutation_def)
next
  case (Suc m)
  then show ?thesis
    unfolding permutation_def using shuffle_raw_mset [OF assms, of m "[0..<n]" g] by simp
qed

lemma permutation_props:
  assumes "interval_ok ri"
  shows "distinct (fst (permutation ri n g))"
    and "set (fst (permutation ri n g)) = {0..<n}"
    and "length (fst (permutation ri n g)) = n"
proof -
  have m: "mset (fst (permutation ri n g)) = mset [0..<n]" by (rule permutation_mset [OF assms])
  show "distinct (fst (permutation ri n g))"
    using mset_eq_imp_distinct_iff [OF m] by simp
  show "set (fst (permutation ri n g)) = {0..<n}"
    using mset_eq_setD [OF m] by simp
  show "length (fst (permutation ri n g)) = n"
    using mset_eq_length [OF m] by simp
qed

lemma choice_ok:
  assumes ok: "interval_ok ri" and le: "k \<le> a"
  shows "\<exists>us g'. choice ri a k g = (Inr us, g') \<and> length us = k \<and> distinct us \<and> (\<forall>i \<in> set us. i < a)"
proof -
  obtain p g' where p: "permutation ri a g = (p, g')" by (cases "permutation ri a g")
  have d: "distinct p" "set p = {0..<a}" "length p = a"
    using permutation_props [OF ok, of a g] p by simp_all
  have c: "choice ri a k g = (Inr (take k p), g')"
    using le p by (auto simp: choice_def)
  have "\<forall>i \<in> set (take k p). i < a"
    using d(2) by (auto dest: in_set_takeD)
  then show ?thesis using c d le by auto
qed

lemma choice_too_many: "a < k \<Longrightarrow> choice ri a k g = (Inl ValueError, g)"
  by (simp add: choice_def)

lemma take_idx_distinct:
  assumes "distinct xs" "distinct idx" "\<forall>i \<in> set idx. i < length xs"
  shows "take_idx xs idx = Inr (map (\<lambda>i. xs ! i) idx)"
    and "distinct (map (\<lambda>i. xs ! i) idx)"
    and "set (map (\<lambda>i. xs ! i) idx) \<subseteq> set xs"
proof -
  show "take_idx xs idx = Inr (map (\<lambda>i. xs ! i) idx)" using assms(3) by (simp add: take_idx_def)
  have "inj_on (\<lambda>i. xs ! i) (set idx)"
    using assms(1,3) by (auto simp: inj_on_def nth_eq_iff_index_eq)
  then show "distinct (map (\<lambda>i. xs ! i) idx)" using assms(2) by (simp add: distinct_map)
  show "set (map (\<lambda>i. xs ! i) idx) \<subseteq> set xs" using assms(3) by auto
qed

lemma cell_sample_success:
  assumes "cell_sample e df w = (Inr (Some s), w')"
  obtains ids g where
    "kcore_5_compact_sample_csv w = None"
    "getitem df ''reviewerID'' = Inr ids"
    "choice (random_interval e) (length (unique ids)) (USER_SAMPLES e) (rng w)
       = (Inr (user_sample s), g)"
    "take_idx (unique ids) (user_sample s) = Inr (cohort s)"
    "unique_users s = unique ids"
    "sampled_reviews s = isin_rows df ''reviewerID'' (cohort s)"
    "w' = w\<lparr>rng := g, kcore_5_compact_sample_csv := Some (csv_rows (sampled_reviews s))\<rparr>"
  using assms
  by (auto simp: cell_sample_def Let_def append_csv_def
           split: if_splits sum.splits prod.splits)

text \<open>
  C2. When the compact corpus has at least \<open>USER_SAMPLES\<close> distinct reviewer ids, the
  sampling cell binds a cohort of exactly \<open>USER_SAMPLES\<close> distinct ids of the corpus;
  when it has fewer, the cell raises and the sample file is still absent.
\<close>

theorem user_sample_size:
  assumes "interval_ok (random_interval e)"
    and "kcore_5_compact_sample_csv w = None"
    and "getitem kcore_5_compact ''reviewerID'' = Inr ids"
  shows "(USER_SAMPLES e \<le> card (set ids) \<longrightarrow>
            (\<exists>s w'. cell_sample e kcore_5_compact w = (Inr (Some s), w')
               \<and> length (cohort s) = USER_SAMPLES e \<and> distinct (cohort s)
               \<and> card (set (cohort s)) = USER_SAMPLES e \<and> set (cohort s) \<subseteq> set ids))
       \<and> (card (set ids) < USER_SAMPLES e \<longrightarrow>
            (\<exists>err w'. cell_sample e kcore_5_compact w = (Inl err, w')
               \<and> kcore_5_compact_sample_csv w' = None))"
proof (intro conjI impI)
  assume "USER_SAMPLES e \<le> card (set ids)"
  then have le: "USER_SAMPLES e \<le> length (unique ids)" by (simp add: length_unique)
  from choice_ok [OF assms(1) le, of "rng w"] obtain us g where
    c: "choice (random_interval e) (length (unique ids)) (USER_SAMPLES e) (rng w) = (Inr us, g)"
    and us: "length us = USER_SAMPLES e" "distinct us" "\<forall>i \<in> set us. i < length (unique ids)"
    by blast
  let ?co = "map (\<lambda>i. unique ids ! i) us"
  have t: "take_idx (unique ids) us = Inr ?co" and d: "distinct ?co"
    and sub: "set ?co \<subseteq> set (unique ids)"
    using take_idx_distinct [OF distinct_unique us(2) us(3)] by blast+
  let ?smp = "isin_rows kcore_5_compact ''reviewerID'' ?co"
  let ?s = "\<lparr>unique_users = unique ids, user_sample = us, cohort = ?co, sampled_reviews = ?smp\<rparr>"
  have "cell_sample e kcore_5_compact w =
          (Inr (Some ?s), w\<lparr>rng := g, kcore_5_compact_sample_csv :=
                                append_csv (kcore_5_compact_sample_csv w) ?smp\<rparr>)"
    using assms(2,3) c t by (simp add: cell_sample_def Let_def)
  moreover have "length (cohort ?s) = USER_SAMPLES e" using us(1) by simp
  moreover have "distinct (cohort ?s)" using d by simp
  moreover have "card (set (cohort ?s)) = USER_SAMPLES e"
    using distinct_card [OF d] us(1) by simp
  moreover have "set (cohort ?s) \<subseteq> set ids" using sub by simp
  ultimately show "\<exists>s w'. cell_sample e kcore_5_compact w = (Inr (Some s), w')
               \<and> length (cohort s) = USER_SAMPLES e \<and> distinct (cohort s)
               \<and> card (set (cohort s)) = USER_SAMPLES e \<and> set (cohort s) \<subseteq> set ids"
    by blast
next
  assume "card (set ids) < USER_SAMPLES e"
  then have "length (unique ids) < USER_SAMPLES e" by (simp add: length_unique)
  then have "cell_sample e kcore_5_compact w = (Inl ValueError, w\<lparr>rng := rng w\<rparr>)"
    using assms(2,3) by (simp add: cell_sample_def Let_def choice_too_many)
  then show "\<exists>err w'. cell_sample e kcore_5_compact w = (Inl err, w')
               \<and> kcore_5_compact_sample_csv w' = None"
    using assms(2) by simp
qed

lemma demo_interval_ok: "interval_ok demo_interval"
  by (simp add: interval_ok_def demo_interval_def)

lemma demo_reviewer_ids:
  "getitem demo_compact ''reviewerID'' =
     Inr [Some (PStr ''u1''), Some (PStr ''u2''), Some (PStr ''u1''), Some (PStr ''u3'')]"
  by (simp add: getitem_def demo_compact_def demo_compact_csv_def review_names_def cell_of_def)

theorem user_sample_size_witness:
  "(\<exists>s w'. cell_sample demo_env demo_compact seeded = (Inr (Some s), w')
      \<and> length (cohort s) = 2 \<and> distinct (cohort s) \<and> card (set (cohort s)) = 2
      \<and> set (cohort s) \<subseteq> {Some (PStr ''u1''), Some (PStr ''u2''), Some (PStr ''u3'')})
   \<and> (\<exists>err w'. cell_sample (demo_env\<lparr>USER_SAMPLES := 5\<rparr>) demo_compact seeded = (Inl err, w')
      \<and> kcore_5_compact_sample_csv w' = None)"
proof -
  have ok5: "interval_ok (random_interval (demo_env\<lparr>USER_SAMPLES := 5\<rparr>))"
    using demo_interval_ok by (simp add: demo_env_def)
  have n5: "USER_SAMPLES (demo_env\<lparr>USER_SAMPLES := 5\<rparr>) = 5" by simp
  have ok: "interval_ok (random_interval demo_env)"
    using demo_interval_ok by (simp add: demo_env_def)
  have none: "kcore_5_compact_sample_csv seeded = None" by (simp add: seeded_def)
  have n: "USER_SAMPLES demo_env = 2" by (simp add: demo_env_def)
  have c: "card (set [Some (PStr ''u1''), Some (PStr ''u2''), Some (PStr ''u1''), Some (PStr ''u3'')]) = 3"
    unfolding card_set by simp
  have "\<exists>s w'. cell_sample demo_env demo_compact seeded = (Inr (Some s), w')
      \<and> length (cohort s) = 2 \<and> distinct (cohort s) \<and> card (set (cohort s)) = 2
      \<and> set (cohort s) \<subseteq> {Some (PStr ''u1''), Some (PStr ''u2''), Some (PStr ''u3'')}"
    using user_sample_size [OF ok none demo_reviewer_ids] n c by auto
  moreover have "\<exists>err w'. cell_sample (demo_env\<lparr>USER_SAMPLES := 5\<rparr>) demo_compact seeded
        = (Inl err, w') \<and> kcore_5_compact_sample_csv w' = None"
    using user_sample_size [OF ok5 none demo_reviewer_ids] n5 c by auto
  ultimately show ?thesis by blast
qed

section \<open>The sampled reviews\<close>

lemma take_idx_map: "take_idx xs idx = Inr ys \<Longrightarrow> ys = map (\<lambda>i. xs ! i) idx"
  by (auto simp: take_idx_def split: if_splits)

lemma take_idx_subset: "take_idx xs idx = Inr ys \<Longrightarrow> set ys \<subseteq> set xs"
  by (auto simp: take_idx_def split: if_splits)

lemma getitem_values:
  "getitem df c = Inr vs \<Longrightarrow> vs = map (\<lambda>r. cell_of r c) (rows df)"
  by (auto simp: getitem_def split: if_splits)

text \<open>
  C3. When the sampling cell runs, the sampled reviews are the rows of the compact
  corpus whose reviewer is in the cohort, in their order; the reviewers that occur in
  them are exactly the cohort; and these rows are what the cell writes.
\<close>

theorem sampled_reviews_of_cohort:
  assumes "cell_sample e kcore_5_compact w = (Inr (Some s), w')"
  shows "rows (sampled_reviews s) =
           filter (\<lambda>r. cell_of r ''reviewerID'' \<in> set (cohort s)) (rows kcore_5_compact)
       \<and> (\<forall>r \<in> set (rows (sampled_reviews s)). cell_of r ''reviewerID'' \<in> set (cohort s))
       \<and> subseq (rows (sampled_reviews s)) (rows kcore_5_compact)
       \<and> set (map (\<lambda>r. cell_of r ''reviewerID'') (rows (sampled_reviews s))) = set (cohort s)
       \<and> kcore_5_compact_sample_csv w' = Some (csv_rows (sampled_reviews s))"
proof -
  from assms obtain ids g where
    ids: "getitem kcore_5_compact ''reviewerID'' = Inr ids"
    and t: "take_idx (unique ids) (user_sample s) = Inr (cohort s)"
    and smp: "sampled_reviews s = isin_rows kcore_5_compact ''reviewerID'' (cohort s)"
    and w': "w' = w\<lparr>rng := g, kcore_5_compact_sample_csv := Some (csv_rows (sampled_reviews s))\<rparr>"
    by (rule cell_sample_success)
  have r: "rows (sampled_reviews s) =
           filter (\<lambda>r. cell_of r ''reviewerID'' \<in> set (cohort s)) (rows kcore_5_compact)"
    using smp by (simp add: isin_rows_def)
  have sub: "set (cohort s) \<subseteq> set ids" using take_idx_subset [OF t] by simp
  have idsv: "ids = map (\<lambda>r. cell_of r ''reviewerID'') (rows kcore_5_compact)"
    by (rule getitem_values [OF ids])
  have "set (map (\<lambda>r. cell_of r ''reviewerID'') (rows (sampled_reviews s))) = set (cohort s)"
    unfolding r using sub idsv by auto
  moreover have "subseq (rows (sampled_reviews s)) (rows kcore_5_compact)"
    unfolding r by simp
  moreover have "\<forall>r \<in> set (rows (sampled_reviews s)). cell_of r ''reviewerID'' \<in> set (cohort s)"
    unfolding r by simp
  moreover have "kcore_5_compact_sample_csv w' = Some (csv_rows (sampled_reviews s))"
    using w' by simp
  ultimately show ?thesis using r by blast
qed

lemma demo_cell_sample:
  "cell_sample demo_env demo_compact seeded =
     (Inr (Some demo_sampling),
      seeded\<lparr>rng := 1193, kcore_5_compact_sample_csv := Some (take 3 demo_compact_csv)\<rparr>)"
  by code_simp

theorem sampled_reviews_of_cohort_witness:
  "rows (sampled_reviews demo_sampling) =
           filter (\<lambda>r. cell_of r ''reviewerID'' \<in> set (cohort demo_sampling)) (rows demo_compact)
       \<and> subseq (rows (sampled_reviews demo_sampling)) (rows demo_compact)
       \<and> set (map (\<lambda>r. cell_of r ''reviewerID'') (rows (sampled_reviews demo_sampling)))
            = set (cohort demo_sampling)
       \<and> kcore_5_compact_sample_csv
            (seeded\<lparr>rng := 1193, kcore_5_compact_sample_csv := Some (take 3 demo_compact_csv)\<rparr>)
          = Some (csv_rows (sampled_reviews demo_sampling))"
proof -
  note t = sampled_reviews_of_cohort [OF demo_cell_sample]
  from t [THEN conjunct1] t [THEN conjunct2, THEN conjunct2, THEN conjunct1]
    t [THEN conjunct2, THEN conjunct2, THEN conjunct2, THEN conjunct1]
    t [THEN conjunct2, THEN conjunct2, THEN conjunct2, THEN conjunct2]
  show ?thesis by (intro conjI)
qed

section \<open>Reproducibility of the cohort\<close>

lemma two_users_ids: "getitem (two_users u v) ''reviewerID'' = Inr [u, v]"
  by (simp add: getitem_def two_users_def review_names_def cell_of_def)

lemma permutation_two:
  assumes "interval_ok ri"
  shows "take (Suc 0) (fst (permutation ri (Suc (Suc 0)) g)) = [0]
       \<or> take (Suc 0) (fst (permutation ri (Suc (Suc 0)) g)) = [Suc 0]"
proof -
  obtain j g' where d: "ri g (Suc 0) = (j, g')" by (cases "ri g (Suc 0)")
  from assms d have "j \<le> Suc 0" unfolding interval_ok_def by (metis fst_conv)
  then have "j = 0 \<or> j = Suc 0" by auto
  moreover have "permutation ri (Suc (Suc 0)) g = shuffle_raw ri (Suc 0) [0, Suc 0] g"
    by (simp add: permutation_def upt_rec)
  ultimately show ?thesis using d by auto
qed

lemma cell_sample_two_users:
  assumes ok: "interval_ok (random_interval e)" and n: "USER_SAMPLES e = Suc 0"
    and f: "kcore_5_compact_sample_csv w = None" and ne: "u \<noteq> v"
  shows "\<exists>s w' i. cell_sample e (two_users u v) w = (Inr (Some s), w')
           \<and> take (Suc 0) (fst (permutation (random_interval e) (Suc (Suc 0)) (rng w))) = [i]
           \<and> cohort s = [[u, v] ! i] \<and> i \<le> Suc 0"
proof -
  obtain p g where p: "permutation (random_interval e) (Suc (Suc 0)) (rng w) = (p, g)"
    by (cases "permutation (random_interval e) (Suc (Suc 0)) (rng w)")
  from permutation_two [OF ok, of "rng w"] p obtain i where
    i: "take (Suc 0) p = [i]" "i \<le> Suc 0" by auto
  have u: "unique [u, v] = [u, v]" using ne by auto
  have c: "choice (random_interval e) (Suc (Suc 0)) (Suc 0) (rng w) = (Inr [i], g)"
    using p i by (simp add: choice_def)
  have t: "take_idx [u, v] [i] = Inr [[u, v] ! i]" using i by (simp add: take_idx_def)
  have "cell_sample e (two_users u v) w =
          (Inr (Some \<lparr>unique_users = [u, v], user_sample = [i], cohort = [[u, v] ! i],
                       sampled_reviews = isin_rows (two_users u v) ''reviewerID'' [[u, v] ! i]\<rparr>),
           w\<lparr>rng := g, kcore_5_compact_sample_csv :=
               append_csv (kcore_5_compact_sample_csv w)
                 (isin_rows (two_users u v) ''reviewerID'' [[u, v] ! i])\<rparr>)"
    using f n c t ne by (simp add: cell_sample_def two_users_ids Let_def)
  then show ?thesis using p i by auto
qed

text \<open>
  C10. The cohort is read off the distinct reviewer ids in order of first appearance,
  at the positions the generator draws for their number: two corpora with the same
  such sequence and the same generator state get the same cohort, and two corpora with
  the same two users in opposite order get different cohorts of size one.
\<close>

theorem cohort_by_position:
  "(\<forall>s w'. cell_sample e df w = (Inr (Some s), w') \<longrightarrow>
      (\<exists>ids. getitem df ''reviewerID'' = Inr ids
         \<and> unique_users s = unique ids
         \<and> user_sample s = take (USER_SAMPLES e)
              (fst (permutation (random_interval e) (length (unique ids)) (rng w)))
         \<and> cohort s = map (\<lambda>i. unique ids ! i) (user_sample s)))
   \<and> (\<forall>df1 df2 ids1 ids2 w1 w2 s1 w1'.
        getitem df1 ''reviewerID'' = Inr ids1 \<and> getitem df2 ''reviewerID'' = Inr ids2
        \<and> unique ids1 = unique ids2 \<and> rng w1 = rng w2
        \<and> kcore_5_compact_sample_csv w2 = None
        \<and> cell_sample e df1 w1 = (Inr (Some s1), w1') \<longrightarrow>
        (\<exists>s2 w2'. cell_sample e df2 w2 = (Inr (Some s2), w2') \<and> cohort s2 = cohort s1
           \<and> user_sample s2 = user_sample s1 \<and> unique_users s2 = unique_users s1))
   \<and> (\<forall>u v. interval_ok (random_interval e) \<and> USER_SAMPLES e = 1
        \<and> kcore_5_compact_sample_csv w = None \<and> u \<noteq> v \<longrightarrow>
        (\<exists>s1 s2 w1 w2. cell_sample e (two_users u v) w = (Inr (Some s1), w1)
           \<and> cell_sample e (two_users v u) w = (Inr (Some s2), w2)
           \<and> set (cohort s1) \<noteq> set (cohort s2)))"
proof (intro conjI allI impI)
  fix s w'
  assume a: "cell_sample e df w = (Inr (Some s), w')"
  from a obtain ids g where
    ids: "getitem df ''reviewerID'' = Inr ids"
    and c: "choice (random_interval e) (length (unique ids)) (USER_SAMPLES e) (rng w)
              = (Inr (user_sample s), g)"
    and t: "take_idx (unique ids) (user_sample s) = Inr (cohort s)"
    and uu: "unique_users s = unique ids"
    by (rule cell_sample_success)
  have "user_sample s = take (USER_SAMPLES e)
          (fst (permutation (random_interval e) (length (unique ids)) (rng w)))"
    using c by (auto simp: choice_def split: if_splits prod.splits)
  then show "\<exists>ids. getitem df ''reviewerID'' = Inr ids
         \<and> unique_users s = unique ids
         \<and> user_sample s = take (USER_SAMPLES e)
              (fst (permutation (random_interval e) (length (unique ids)) (rng w)))
         \<and> cohort s = map (\<lambda>i. unique ids ! i) (user_sample s)"
    using ids uu take_idx_map [OF t] by blast
next
  fix df1 df2 ids1 ids2 and w1 w2 w1' :: "'a world" and s1
  assume h: "getitem df1 ''reviewerID'' = Inr ids1 \<and> getitem df2 ''reviewerID'' = Inr ids2
        \<and> unique ids1 = unique ids2 \<and> rng w1 = rng w2
        \<and> kcore_5_compact_sample_csv w2 = None
        \<and> cell_sample e df1 w1 = (Inr (Some s1), w1')"
  then have a: "cell_sample e df1 w1 = (Inr (Some s1), w1')" by simp
  from a obtain ids g where
    ids: "getitem df1 ''reviewerID'' = Inr ids"
    and c: "choice (random_interval e) (length (unique ids)) (USER_SAMPLES e) (rng w1)
              = (Inr (user_sample s1), g)"
    and t: "take_idx (unique ids) (user_sample s1) = Inr (cohort s1)"
    and uu: "unique_users s1 = unique ids"
    by (rule cell_sample_success)
  from ids h have e1: "ids = ids1" by simp
  have c2: "choice (random_interval e) (length (unique ids2)) (USER_SAMPLES e) (rng w2)
              = (Inr (user_sample s1), g)"
    using c h e1 by simp
  have t2: "take_idx (unique ids2) (user_sample s1) = Inr (cohort s1)"
    using t h e1 by simp
  have g2: "getitem df2 ''reviewerID'' = Inr ids2" and f2: "kcore_5_compact_sample_csv w2 = None"
    using h by simp_all
  let ?s2 = "\<lparr>unique_users = unique ids2, user_sample = user_sample s1, cohort = cohort s1,
              sampled_reviews = isin_rows df2 ''reviewerID'' (cohort s1)\<rparr>"
  have "cell_sample e df2 w2 =
          (Inr (Some ?s2), w2\<lparr>rng := g, kcore_5_compact_sample_csv :=
             append_csv (kcore_5_compact_sample_csv w2) (isin_rows df2 ''reviewerID'' (cohort s1))\<rparr>)"
    using g2 f2 c2 t2 by (simp add: cell_sample_def Let_def)
  moreover have "unique_users ?s2 = unique_users s1" using uu h e1 by simp
  ultimately show "\<exists>s2 w2'. cell_sample e df2 w2 = (Inr (Some s2), w2') \<and> cohort s2 = cohort s1
           \<and> user_sample s2 = user_sample s1 \<and> unique_users s2 = unique_users s1"
    by (metis sampling.select_convs(2,3))
next
  fix u v :: cell
  assume h: "interval_ok (random_interval e) \<and> USER_SAMPLES e = 1
        \<and> kcore_5_compact_sample_csv w = None \<and> u \<noteq> v"
  then have ok: "interval_ok (random_interval e)" and n: "USER_SAMPLES e = Suc 0"
    and f: "kcore_5_compact_sample_csv w = None" and ne: "u \<noteq> v" "v \<noteq> u" by auto
  from cell_sample_two_users [OF ok n f ne(1)] obtain s1 w1 i where
    1: "cell_sample e (two_users u v) w = (Inr (Some s1), w1)"
    "take (Suc 0) (fst (permutation (random_interval e) (Suc (Suc 0)) (rng w))) = [i]"
    "cohort s1 = [[u, v] ! i]" "i \<le> Suc 0" by blast
  from cell_sample_two_users [OF ok n f ne(2)] obtain s2 w2 k where
    2: "cell_sample e (two_users v u) w = (Inr (Some s2), w2)"
    "take (Suc 0) (fst (permutation (random_interval e) (Suc (Suc 0)) (rng w))) = [k]"
    "cohort s2 = [[v, u] ! k]" "k \<le> Suc 0" by blast
  from 1(2) 2(2) have "i = k" by simp
  moreover from 1(4) have "i = 0 \<or> i = Suc 0" by auto
  ultimately have "set (cohort s1) \<noteq> set (cohort s2)"
    using 1(3) 2(3) ne by auto
  with 1(1) 2(1) show "\<exists>s1 s2 w1 w2. cell_sample e (two_users u v) w = (Inr (Some s1), w1)
           \<and> cell_sample e (two_users v u) w = (Inr (Some s2), w2)
           \<and> set (cohort s1) \<noteq> set (cohort s2)" by blast
qed

theorem cohort_by_position_witness:
  "(\<exists>ids. getitem demo_compact ''reviewerID'' = Inr ids
       \<and> unique_users demo_sampling = unique ids
       \<and> user_sample demo_sampling
            = take 2 (fst (permutation demo_interval (length (unique ids)) 47))
       \<and> cohort demo_sampling = map (\<lambda>i. unique ids ! i) (user_sample demo_sampling))
   \<and> (\<exists>s2 w2'. cell_sample demo_env demo_compact (seeded\<lparr>metadata_sample_csv := Some []\<rparr>)
                   = (Inr (Some s2), w2')
         \<and> cohort s2 = cohort demo_sampling)
   \<and> (\<exists>s1 s2 w1 w2.
         cell_sample (demo_env\<lparr>USER_SAMPLES := 1\<rparr>)
             (two_users (Some (PStr ''u1'')) (Some (PStr ''u2''))) seeded = (Inr (Some s1), w1)
       \<and> cell_sample (demo_env\<lparr>USER_SAMPLES := 1\<rparr>)
             (two_users (Some (PStr ''u2'')) (Some (PStr ''u1''))) seeded = (Inr (Some s2), w2)
       \<and> set (cohort s1) \<noteq> set (cohort s2))"
proof -
  note a = cohort_by_position [of demo_env demo_compact seeded]
  note b = cohort_by_position [of "demo_env\<lparr>USER_SAMPLES := 1\<rparr>" demo_compact seeded]
  have n: "USER_SAMPLES demo_env = 2" "random_interval demo_env = demo_interval" "rng seeded = 47"
    by (simp_all add: demo_env_def seeded_def)
  from a demo_cell_sample have 1: "\<exists>ids. getitem demo_compact ''reviewerID'' = Inr ids
       \<and> unique_users demo_sampling = unique ids
       \<and> user_sample demo_sampling
            = take 2 (fst (permutation demo_interval (length (unique ids)) 47))
       \<and> cohort demo_sampling = map (\<lambda>i. unique ids ! i) (user_sample demo_sampling)"
    unfolding n by blast
  have h2: "getitem demo_compact ''reviewerID''
               = Inr [Some (PStr ''u1''), Some (PStr ''u2''), Some (PStr ''u1''), Some (PStr ''u3'')]
        \<and> getitem demo_compact ''reviewerID''
               = Inr [Some (PStr ''u1''), Some (PStr ''u2''), Some (PStr ''u1''), Some (PStr ''u3'')]
        \<and> unique [Some (PStr ''u1''), Some (PStr ''u2''), Some (PStr ''u1''), Some (PStr ''u3'')]
            = unique [Some (PStr ''u1''), Some (PStr ''u2''), Some (PStr ''u1''), Some (PStr ''u3'')]
        \<and> rng seeded = rng (seeded\<lparr>metadata_sample_csv := Some []\<rparr>)
        \<and> kcore_5_compact_sample_csv (seeded\<lparr>metadata_sample_csv := Some []\<rparr>) = None
        \<and> cell_sample demo_env demo_compact seeded
            = (Inr (Some demo_sampling),
               seeded\<lparr>rng := 1193, kcore_5_compact_sample_csv := Some (take 3 demo_compact_csv)\<rparr>)"
    using demo_reviewer_ids demo_cell_sample by (simp add: seeded_def)
  from a have "\<forall>df1 df2 ids1 ids2 w1 w2 s1 w1'.
        getitem df1 ''reviewerID'' = Inr ids1 \<and> getitem df2 ''reviewerID'' = Inr ids2
        \<and> unique ids1 = unique ids2 \<and> rng w1 = rng w2
        \<and> kcore_5_compact_sample_csv w2 = None
        \<and> cell_sample demo_env df1 w1 = (Inr (Some s1), w1') \<longrightarrow>
        (\<exists>s2 w2'. cell_sample demo_env df2 w2 = (Inr (Some s2), w2') \<and> cohort s2 = cohort s1
           \<and> user_sample s2 = user_sample s1 \<and> unique_users s2 = unique_users s1)"
    by blast
  from this [rule_format, OF h2]
  have 2: "\<exists>s2 w2'. cell_sample demo_env demo_compact (seeded\<lparr>metadata_sample_csv := Some []\<rparr>)
                   = (Inr (Some s2), w2') \<and> cohort s2 = cohort demo_sampling"
    by blast
  have h3: "interval_ok (random_interval (demo_env\<lparr>USER_SAMPLES := 1\<rparr>))
        \<and> USER_SAMPLES (demo_env\<lparr>USER_SAMPLES := 1\<rparr>) = 1
        \<and> kcore_5_compact_sample_csv seeded = None \<and> Some (PStr ''u1'') \<noteq> Some (PStr ''u2'')"
    using demo_interval_ok by (simp add: demo_env_def seeded_def)
  from b have "\<forall>u v. interval_ok (random_interval (demo_env\<lparr>USER_SAMPLES := 1\<rparr>))
        \<and> USER_SAMPLES (demo_env\<lparr>USER_SAMPLES := 1\<rparr>) = 1
        \<and> kcore_5_compact_sample_csv seeded = None \<and> u \<noteq> v \<longrightarrow>
        (\<exists>s1 s2 w1 w2. cell_sample (demo_env\<lparr>USER_SAMPLES := 1\<rparr>) (two_users u v) seeded
             = (Inr (Some s1), w1)
           \<and> cell_sample (demo_env\<lparr>USER_SAMPLES := 1\<rparr>) (two_users v u) seeded
             = (Inr (Some s2), w2)
           \<and> set (cohort s1) \<noteq> set (cohort s2))"
    by blast
  from this [rule_format, OF h3] have 3: "\<exists>s1 s2 w1 w2.
         cell_sample (demo_env\<lparr>USER_SAMPLES := 1\<rparr>)
             (two_users (Some (PStr ''u1'')) (Some (PStr ''u2''))) seeded = (Inr (Some s1), w1)
       \<and> cell_sample (demo_env\<lparr>USER_SAMPLES := 1\<rparr>)
             (two_users (Some (PStr ''u2'')) (Some (PStr ''u1''))) seeded = (Inr (Some s2), w2)
       \<and> set (cohort s1) \<noteq> set (cohort s2)" .
  from 1 2 3 show ?thesis by blast
qed

section \<open>Determinism of the seeded run\<close>

lemma meta_compact_commute:
  "w\<lparr>metadata_sample_csv := m, kcore_5_compact_csv := x\<rparr>
     = w\<lparr>kcore_5_compact_csv := x, metadata_sample_csv := m\<rparr>"
  by (cases w) simp

lemma meta_sample_commute:
  "w\<lparr>metadata_sample_csv := m, rng := g, kcore_5_compact_sample_csv := x\<rparr>
     = w\<lparr>rng := g, kcore_5_compact_sample_csv := x, metadata_sample_csv := m\<rparr>"
  "w\<lparr>metadata_sample_csv := m, rng := g\<rparr> = w\<lparr>rng := g, metadata_sample_csv := m\<rparr>"
  by (cases w, simp)+

lemma compact_loop_meta:
  "compact_loop cs (w\<lparr>metadata_sample_csv := m\<rparr>) =
     (case compact_loop cs w of (r, w') \<Rightarrow> (r, w'\<lparr>metadata_sample_csv := m\<rparr>))"
proof (induction cs arbitrary: w)
  case Nil
  then show ?case by simp
next
  case (Cons c cs)
  show ?case
  proof (cases "drop_columns (from_dict c) dropped_review_columns")
    case (Inl err)
    then show ?thesis by simp
  next
    case (Inr chunk)
    then show ?thesis
      using Cons.IH [of "w\<lparr>kcore_5_compact_csv := append_csv (kcore_5_compact_csv w) chunk\<rparr>"]
      by (simp add: meta_compact_commute)
  qed
qed

lemma cell_compact_meta:
  "cell_compact e (w\<lparr>metadata_sample_csv := m\<rparr>) =
     (case cell_compact e w of (r, w') \<Rightarrow> (r, w'\<lparr>metadata_sample_csv := m\<rparr>))"
  by (simp add: cell_compact_def compact_loop_meta)

lemma cell_sample_meta:
  "cell_sample e df (w\<lparr>metadata_sample_csv := m\<rparr>) =
     (case cell_sample e df w of (r, w') \<Rightarrow> (r, w'\<lparr>metadata_sample_csv := m\<rparr>))"
  by (simp add: cell_sample_def Let_def meta_sample_commute split: sum.splits prod.splits)

lemma run_sampling_seeded:
  assumes "cell_seed e w2 = (cell_seed e w1)\<lparr>metadata_sample_csv := m\<rparr>"
  shows "run_sampling e w2 =
           (case run_sampling e w1 of (r, w') \<Rightarrow> (r, w'\<lparr>metadata_sample_csv := m\<rparr>))"
  unfolding run_sampling_def assms cell_compact_meta
  by (simp add: cell_read_compact_def cell_sample_meta split: prod.splits option.splits sum.splits)

text \<open>
  C1. Two runs of the cells up to the sampling, with the same settings, from states
  with the same compact and sample files, bind the same users, whatever the state of
  the generator was before the seeding cell and whatever else is on disk.
\<close>

theorem seeded_cohort_deterministic:
  assumes "kcore_5_compact_csv w1 = kcore_5_compact_csv w2"
    and "kcore_5_compact_sample_csv w1 = kcore_5_compact_sample_csv w2"
  shows "fst (run_sampling e w1) = fst (run_sampling e w2)
       \<and> kcore_5_compact_sample_csv (snd (run_sampling e w1))
           = kcore_5_compact_sample_csv (snd (run_sampling e w2))
       \<and> rng (snd (run_sampling e w1)) = rng (snd (run_sampling e w2))"
proof -
  have "cell_seed e w2 = (cell_seed e w1)\<lparr>metadata_sample_csv := metadata_sample_csv w2\<rparr>"
    using assms by (cases w1, cases w2) (simp add: cell_seed_def)
  from run_sampling_seeded [OF this] show ?thesis
    by (simp split: prod.splits)
qed

theorem seeded_cohort_deterministic_witness:
  "fst (run_sampling demo_env fresh)
     = fst (run_sampling demo_env (fresh\<lparr>rng := 99, metadata_sample_csv := Some []\<rparr>))
   \<and> fst (run_sampling demo_env fresh) = Inr (Some demo_sampling)"
proof -
  have "kcore_5_compact_csv fresh
          = kcore_5_compact_csv (fresh\<lparr>rng := 99, metadata_sample_csv := Some []\<rparr>)"
    and "kcore_5_compact_sample_csv fresh
          = kcore_5_compact_sample_csv (fresh\<lparr>rng := 99, metadata_sample_csv := Some []\<rparr>)"
    by simp_all
  from seeded_cohort_deterministic [OF this, of demo_env]
  have "fst (run_sampling demo_env fresh)
     = fst (run_sampling demo_env (fresh\<lparr>rng := 99, metadata_sample_csv := Some []\<rparr>))"
    by simp
  moreover have "fst (run_sampling demo_env fresh) = Inr (Some demo_sampling)"
    by code_simp
  ultimately show ?thesis by simp
qed

section \<open>The quality filter\<close>






section \<open>Failing fast on a metadata line\<close>

lemma meta_loop_append:
  "meta_loop le cs smp (pre @ post) m =
     (case meta_loop le cs smp pre m of
        (Some err, m') \<Rightarrow> (Some err, m')
      | (None, m') \<Rightarrow> meta_loop le cs smp post m')"
proof (induction pre arbitrary: m)
  case Nil
  show ?case by simp
next
  case (Cons line pre)
  show ?case
  proof (cases "le line")
    case None
    then show ?thesis by simp
  next
    case (Some d)
    let ?m1 = "m\<lparr>data := data m @ [pop_keys popped_keys d]\<rparr>"
    show ?thesis
    proof (cases "length (data ?m1) = cs")
      case False
      with Some Cons.IH [of ?m1] show ?thesis by (simp add: Let_def)
    next
      case True
      obtain r2 m2 where f: "flush_chunk smp ?m1 = (r2, m2)" by (cases "flush_chunk smp ?m1")
      show ?thesis
      proof (cases r2)
        case None
        with Some True f Cons.IH [of m2] show ?thesis by (simp add: Let_def)
      next
        case (Some err)
        with \<open>le line = Some d\<close> True f show ?thesis by (simp add: Let_def)
      qed
    qed
  qed
qed

lemma flush_chunk_out:
  assumes "flush_chunk smp m = (r, m')" and "out m = Some old"
  shows "\<exists>rs. out m' = Some (old @ rs)"
  using assms
  by (auto simp: flush_chunk_def Let_def append_csv_def split: sum.splits)

lemma meta_loop_out:
  assumes "meta_loop le cs smp ls m = (r, m')" and "out m = Some old"
  shows "\<exists>rs. out m' = Some (old @ rs)"
  using assms
proof (induction ls arbitrary: m old)
  case Nil
  then show ?case by simp
next
  case (Cons line ls)
  show ?case
  proof (cases "le line")
    case None
    with Cons.prems show ?thesis by simp
  next
    case (Some d)
    let ?m1 = "m\<lparr>data := data m @ [pop_keys popped_keys d]\<rparr>"
    show ?thesis
    proof (cases "length (data ?m1) = cs")
      case False
      with Some Cons.prems have "meta_loop le cs smp ls ?m1 = (r, m')" by (simp add: Let_def)
      from Cons.IH [OF this, of old] Cons.prems(2) show ?thesis by simp
    next
      case True
      obtain r2 m2 where f: "flush_chunk smp ?m1 = (r2, m2)" by (cases "flush_chunk smp ?m1")
      from flush_chunk_out [OF f, of old] Cons.prems(2) obtain rs where
        o2: "out m2 = Some (old @ rs)" by auto
      show ?thesis
      proof (cases r2)
        case None
        with Some True f Cons.prems have "meta_loop le cs smp ls m2 = (r, m')"
          by (simp add: Let_def)
        from Cons.IH [OF this o2] show ?thesis by auto
      next
        case (Some err)
        with \<open>le line = Some d\<close> True f Cons.prems have "m' = m2" by (simp add: Let_def)
        with o2 show ?thesis by blast
      qed
    qed
  qed
qed

text \<open>
  C8. When a line of the metadata file is no literal, the metadata cell raises, and it
  leaves the state that the lines before the bad one produce: the error is the one of
  the bad line unless an earlier batch raised already, and the rows a batch appended
  earlier are still the beginning of the file.
\<close>

theorem metadata_fail_fast:
  assumes "literal_eval e bad = None"
    and "metadata_json e = pre @ bad # post"
    and "metadata_sample_csv w = None"
  shows "\<exists>err. cell_metadata e smp w
               = (Some err, snd (cell_metadata (e\<lparr>metadata_json := pre\<rparr>) smp w))
           \<and> (fst (cell_metadata (e\<lparr>metadata_json := pre\<rparr>) smp w) = None
                \<longrightarrow> err = LiteralError)
           \<and> (\<forall>pre1 pre2 old. pre = pre1 @ pre2
                \<and> metadata_sample_csv (snd (cell_metadata (e\<lparr>metadata_json := pre1\<rparr>) smp w))
                    = Some old
                \<longrightarrow> (\<exists>rs. metadata_sample_csv (snd (cell_metadata e smp w)) = Some (old @ rs)))"
proof -
  let ?m0 = "\<lparr>data = [], total_sampled_rows = 0, out = metadata_sample_csv w\<rparr>"
  let ?loop = "\<lambda>ls. meta_loop (literal_eval e) (CHUNK_SIZE e) smp ls"
  obtain r m where p: "?loop pre ?m0 = (r, m)" by (cases "?loop pre ?m0")
  have pre: "cell_metadata (e\<lparr>metadata_json := pre\<rparr>) smp w = (r, w\<lparr>metadata_sample_csv := out m\<rparr>)"
    using assms(3) p by (simp add: cell_metadata_def)
  have bad: "?loop (bad # post) m = (Some LiteralError, m)" using assms(1) by simp
  have full: "?loop (pre @ bad # post) ?m0
                = (case r of Some err \<Rightarrow> (Some err, m) | None \<Rightarrow> (Some LiteralError, m))"
    unfolding meta_loop_append p using bad by (simp split: option.splits)
  have all: "cell_metadata e smp w
               = ((case r of Some err \<Rightarrow> Some err | None \<Rightarrow> Some LiteralError),
                  w\<lparr>metadata_sample_csv := out m\<rparr>)"
    using assms(2,3) full by (simp add: cell_metadata_def split: option.splits)
  have grow: "\<exists>rs. metadata_sample_csv (snd (cell_metadata e smp w)) = Some (old @ rs)"
    if h: "pre = pre1 @ pre2"
      "metadata_sample_csv (snd (cell_metadata (e\<lparr>metadata_json := pre1\<rparr>) smp w)) = Some old"
    for pre1 pre2 old
  proof -
    obtain r1 m1 where p1: "?loop pre1 ?m0 = (r1, m1)" by (cases "?loop pre1 ?m0")
    have o1: "out m1 = Some old"
      using h(2) assms(3) p1 by (simp add: cell_metadata_def)
    have "\<exists>rs. out m = Some (old @ rs)"
    proof (cases r1)
      case None
      with p p1 h(1) have "?loop pre2 m1 = (r, m)" by (simp add: meta_loop_append)
      from meta_loop_out [OF this o1] show ?thesis .
    next
      case (Some err)
      with p p1 h(1) have "m = m1" by (simp add: meta_loop_append)
      with o1 show ?thesis by simp
    qed
    then show ?thesis using all by simp
  qed
  show ?thesis
    using all pre grow by (cases r) auto
qed

lemma bad_env_prefix_run:
  "cell_metadata (bad_env\<lparr>metadata_json := [''line p1'', ''line p9'']\<rparr>)
       (sampled_reviews demo_sampling) seeded
     = (None, seeded\<lparr>metadata_sample_csv :=
          Some [[Some (PStr ''p1''), Some (PList [PList [PStr ''A'']]), Some (PStr ''T1''),
                 Some (PStr ''d''), Some (PDict [(''also_bought'', PList [])])]]\<rparr>)"
  by code_simp

theorem metadata_fail_fast_witness:
  "cell_metadata bad_env (sampled_reviews demo_sampling) seeded
     = (Some LiteralError, seeded\<lparr>metadata_sample_csv :=
          Some [[Some (PStr ''p1''), Some (PList [PList [PStr ''A'']]), Some (PStr ''T1''),
                 Some (PStr ''d''), Some (PDict [(''also_bought'', PList [])])]]\<rparr>)"
proof -
  have 1: "literal_eval bad_env ''{'' = None"
    by (simp add: bad_env_def demo_env_def demo_lines_def)
  have 2: "metadata_json bad_env = [''line p1'', ''line p9''] @ ''{'' # [''line p2'', ''line p3'']"
    by (simp add: bad_env_def)
  have 3: "metadata_sample_csv seeded = None" by (simp add: seeded_def)
  from metadata_fail_fast [OF 1 2 3, of "sampled_reviews demo_sampling"]
  have "\<exists>err. cell_metadata bad_env (sampled_reviews demo_sampling) seeded
       = (Some err, snd (cell_metadata (bad_env\<lparr>metadata_json := [''line p1'', ''line p9'']\<rparr>)
                           (sampled_reviews demo_sampling) seeded))
    \<and> (fst (cell_metadata (bad_env\<lparr>metadata_json := [''line p1'', ''line p9'']\<rparr>)
            (sampled_reviews demo_sampling) seeded) = None \<longrightarrow> err = LiteralError)"
    by (elim exE conjE) (intro exI conjI, assumption+)
  then show ?thesis unfolding bad_env_prefix_run by (elim exE conjE) simp
qed

section \<open>Projection\<close>








section \<open>Running twice\<close>




lemma compact_loop_others:
  "compact_loop cs w = (r, w') \<Longrightarrow>
     rng w' = rng w \<and> kcore_5_compact_sample_csv w' = kcore_5_compact_sample_csv w
       \<and> metadata_sample_csv w' = metadata_sample_csv w"
proof (induction cs arbitrary: w)
  case Nil
  then show ?case by simp
next
  case (Cons c cs)
  show ?case
  proof (cases "drop_columns (from_dict c) dropped_review_columns")
    case (Inl err)
    with Cons.prems show ?thesis by simp
  next
    case (Inr chunk)
    with Cons.prems have
      "compact_loop cs (w\<lparr>kcore_5_compact_csv := append_csv (kcore_5_compact_csv w) chunk\<rparr>) = (r, w')"
      by simp
    from Cons.IH [OF this] show ?thesis by simp
  qed
qed

lemma cell_compact_others:
  "cell_compact e w = (r, w') \<Longrightarrow>
     rng w' = rng w \<and> kcore_5_compact_sample_csv w' = kcore_5_compact_sample_csv w
       \<and> metadata_sample_csv w' = metadata_sample_csv w"
  by (auto simp: cell_compact_def dest: compact_loop_others split: if_splits)








section \<open>The records after the last full batch\<close>

lemma meta_loop_short:
  assumes "\<forall>l \<in> set ls. le l \<noteq> None" and "length (data m) + length ls < cs"
  shows "\<exists>ds. meta_loop le cs smp ls m = (None, m\<lparr>data := data m @ ds\<rparr>) \<and> length ds = length ls"
  using assms
proof (induction ls arbitrary: m)
  case Nil
  then show ?case by simp
next
  case (Cons l ls)
  from Cons.prems(1) obtain d where d: "le l = Some d" by auto
  let ?m1 = "m\<lparr>data := data m @ [pop_keys popped_keys d]\<rparr>"
  have ne: "length (data ?m1) \<noteq> cs" using Cons.prems(2) by simp
  have "\<forall>l \<in> set ls. le l \<noteq> None" "length (data ?m1) + length ls < cs"
    using Cons.prems by simp_all
  from Cons.IH [OF this] obtain ds where
    ds: "meta_loop le cs smp ls ?m1 = (None, ?m1\<lparr>data := data ?m1 @ ds\<rparr>)" "length ds = length ls"
    by blast
  have "meta_loop le cs smp (l # ls) m = (None, m\<lparr>data := data m @ (pop_keys popped_keys d # ds)\<rparr>)"
    using d ne ds(1) by (simp add: Let_def)
  then show ?case using ds(2) by (intro exI [of _ "pop_keys popped_keys d # ds"]) simp
qed

text \<open>
  C4, where the code departs from it. The lines that follow the last full batch are
  parsed and buffered but never filtered or written: when the loop has just flushed
  (or not started) and fewer than \<open>CHUNK_SIZE\<close> lines remain, the loop ends with
  these records in \<open>data\<close> and with the file and the counter as they were.
\<close>

theorem metadata_tail_not_written:
  assumes "meta_loop le cs smp pre m = (None, m')"
    and "data m' = []"
    and "length tail < cs"
    and "\<forall>l \<in> set tail. le l \<noteq> None"
  shows "\<exists>ds. meta_loop le cs smp (pre @ tail) m = (None, m'\<lparr>data := ds\<rparr>)
           \<and> length ds = length tail"
proof -
  from meta_loop_short [OF assms(4), of m' cs smp] assms(2,3) obtain ds where
    "meta_loop le cs smp tail m' = (None, m'\<lparr>data := data m' @ ds\<rparr>)" "length ds = length tail"
    by auto
  then show ?thesis using assms(1,2) by (auto simp: meta_loop_append)
qed

theorem metadata_tail_not_written_witness:
  "metadata_json env3 = pre3 @ tail3
   \<and> literal_eval env3 (tail3 ! 0)
      = Some (raw_product ''p2'' (Some (PList [PList [PStr ''A'']])) (Some (PStr ''T2'')))
   \<and> getitem (sampled_reviews demo_sampling) ''asin''
      = Inr [Some (PStr ''p1''), Some (PStr ''p2''), Some (PStr ''p3'')]
   \<and> (\<exists>ds. meta_loop (literal_eval env3) (CHUNK_SIZE env3) (sampled_reviews demo_sampling)
              (pre3 @ tail3) \<lparr>data = [], total_sampled_rows = 0, out = None\<rparr>
            = (None, flushed3\<lparr>data := ds\<rparr>) \<and> length ds = length tail3)"
proof -
  have 0: "metadata_json env3 = pre3 @ tail3"
    by (simp add: env3_def demo_env_def pre3_def tail3_def)
  have 1: "meta_loop (literal_eval env3) (CHUNK_SIZE env3) (sampled_reviews demo_sampling)
             pre3 \<lparr>data = [], total_sampled_rows = 0, out = None\<rparr> = (None, flushed3)"
    by code_simp
  have 2: "data flushed3 = []" by (simp add: flushed3_def)
  have 3: "length tail3 < CHUNK_SIZE env3" by (simp add: env3_def demo_env_def tail3_def)
  have 4: "\<forall>l \<in> set tail3. literal_eval env3 l \<noteq> None"
    by (simp add: env3_def demo_env_def demo_lines_def tail3_def)
  have 5: "literal_eval env3 (tail3 ! 0)
      = Some (raw_product ''p2'' (Some (PList [PList [PStr ''A'']])) (Some (PStr ''T2'')))"
    by (simp add: env3_def demo_env_def demo_lines_def tail3_def)
  have 6: "getitem (sampled_reviews demo_sampling) ''asin''
      = Inr [Some (PStr ''p1''), Some (PStr ''p2''), Some (PStr ''p3'')]"
    by code_simp
  from 0 5 6 metadata_tail_not_written [OF 1 2 3 4] show ?thesis by (intro conjI)
qed

text \<open>
  C6, where the code departs from it. With a batch size above the number of metadata
  lines the metadata cell writes no file at all, whatever the lines hold; with a
  smaller batch size it writes the rows of the full batches.
\<close>

theorem chunk_size_above_corpus_writes_nothing:
  assumes "metadata_sample_csv w = None"
    and "\<forall>l \<in> set (metadata_json e). literal_eval e l \<noteq> None"
    and "length (metadata_json e) < c"
  shows "cell_metadata (e\<lparr>CHUNK_SIZE := c\<rparr>) smp w = (None, w)"
proof -
  let ?m0 = "\<lparr>data = [], total_sampled_rows = 0, out = metadata_sample_csv w\<rparr>"
  from meta_loop_short [OF assms(2), of ?m0 c smp] assms(3) obtain ds where
    "meta_loop (literal_eval e) c smp (metadata_json e) ?m0 = (None, ?m0\<lparr>data := data ?m0 @ ds\<rparr>)"
    by auto
  then show ?thesis using assms(1) by (simp add: cell_metadata_def)
qed

theorem chunk_size_above_corpus_writes_nothing_witness:
  "cell_metadata (demo_env\<lparr>CHUNK_SIZE := 6\<rparr>) (sampled_reviews demo_sampling) seeded = (None, seeded)
   \<and> metadata_sample_csv seeded = None
   \<and> cell_metadata demo_env (sampled_reviews demo_sampling) seeded
       = (None, seeded\<lparr>metadata_sample_csv :=
            Some [[Some (PStr ''p1''), Some (PList [PList [PStr ''A'']]), Some (PStr ''T1''),
                   Some (PStr ''d''), Some (PDict [(''also_bought'', PList [])])],
                  [Some (PStr ''p3''), None, Some (PStr ''T''),
                   Some (PStr ''d''), Some (PDict [(''also_bought'', PList [])])],
                  [Some (PStr ''p2''), Some (PList [PList [PStr ''A'']]), Some (PStr ''T2''),
                   Some (PStr ''d''), Some (PDict [(''also_bought'', PList [])])]]\<rparr>)"
proof -
  have 1: "metadata_sample_csv seeded = None" by (simp add: seeded_def)
  have 2: "\<forall>l \<in> set (metadata_json demo_env). literal_eval demo_env l \<noteq> None"
    by (simp add: demo_env_def demo_lines_def)
  have 3: "length (metadata_json demo_env) < 6" by (simp add: demo_env_def)
  have 4: "cell_metadata demo_env (sampled_reviews demo_sampling) seeded
       = (None, seeded\<lparr>metadata_sample_csv :=
            Some [[Some (PStr ''p1''), Some (PList [PList [PStr ''A'']]), Some (PStr ''T1''),
                   Some (PStr ''d''), Some (PDict [(''also_bought'', PList [])])],
                  [Some (PStr ''p3''), None, Some (PStr ''T''),
                   Some (PStr ''d''), Some (PDict [(''also_bought'', PList [])])],
                  [Some (PStr ''p2''), Some (PList [PList [PStr ''A'']]), Some (PStr ''T2''),
                   Some (PStr ''d''), Some (PDict [(''also_bought'', PList [])])]]\<rparr>)"
    by code_simp
  from chunk_size_above_corpus_writes_nothing [OF 1 2 3, of "sampled_reviews demo_sampling"] 1 4
  show ?thesis by (intro conjI)
qed

end
